theory Spec2Isabelle
  imports Complex_Main "HOL-Library.Char_ord" "HOL-Library.List_Lexorder" "HOL-Library.Option_ord"
    "HOL-Library.Multiset"
begin

section \<open>JavaScript numbers\<close>

text \<open>
  A JavaScript number is modelled as a real number or one of the three special values of
  IEEE arithmetic. Finite arithmetic is exact (the rounding error of doubles, overflow to
  infinity and the sign of zero are not modelled); what is modelled is what the operators
  do at zero divisors, infinities and NaN. Every divisor of the program is a count or the
  square root of one, so a zero divisor is the positive zero.
\<close>

datatype jsnum = Fin real | PosInf | NegInf | NaN

fun js_add :: "jsnum \<Rightarrow> jsnum \<Rightarrow> jsnum" where
  "js_add NaN y = NaN"
| "js_add x NaN = NaN"
| "js_add (Fin a) (Fin b) = Fin (a + b)"
| "js_add PosInf NegInf = NaN"
| "js_add NegInf PosInf = NaN"
| "js_add PosInf y = PosInf"
| "js_add x PosInf = PosInf"
| "js_add NegInf y = NegInf"
| "js_add x NegInf = NegInf"

fun js_neg :: "jsnum \<Rightarrow> jsnum" where
  "js_neg (Fin a) = Fin (- a)"
| "js_neg PosInf = NegInf"
| "js_neg NegInf = PosInf"
| "js_neg NaN = NaN"

definition js_sub :: "jsnum \<Rightarrow> jsnum \<Rightarrow> jsnum" where
  "js_sub x y = js_add x (js_neg y)"

fun js_mul :: "jsnum \<Rightarrow> jsnum \<Rightarrow> jsnum" where
  "js_mul NaN y = NaN"
| "js_mul x NaN = NaN"
| "js_mul (Fin a) (Fin b) = Fin (a * b)"
| "js_mul (Fin a) PosInf = (if a = 0 then NaN else if 0 < a then PosInf else NegInf)"
| "js_mul (Fin a) NegInf = (if a = 0 then NaN else if 0 < a then NegInf else PosInf)"
| "js_mul PosInf (Fin b) = (if b = 0 then NaN else if 0 < b then PosInf else NegInf)"
| "js_mul NegInf (Fin b) = (if b = 0 then NaN else if 0 < b then NegInf else PosInf)"
| "js_mul PosInf PosInf = PosInf"
| "js_mul PosInf NegInf = NegInf"
| "js_mul NegInf PosInf = NegInf"
| "js_mul NegInf NegInf = PosInf"

fun js_div :: "jsnum \<Rightarrow> jsnum \<Rightarrow> jsnum" where
  "js_div NaN y = NaN"
| "js_div x NaN = NaN"
| "js_div (Fin a) (Fin b) =
     (if b \<noteq> 0 then Fin (a / b)
      else if a = 0 then NaN else if 0 < a then PosInf else NegInf)"
| "js_div (Fin a) PosInf = Fin 0"
| "js_div (Fin a) NegInf = Fin 0"
| "js_div PosInf (Fin b) = (if 0 \<le> b then PosInf else NegInf)"
| "js_div NegInf (Fin b) = (if 0 \<le> b then NegInf else PosInf)"
| "js_div PosInf y = NaN"
| "js_div NegInf y = NaN"

text \<open>\<open>Math.sqrt\<close>, \<open>Math.pow(x, 2)\<close>, \<open>Math.round\<close> (the nearest integer, a tie going
  up) and \<open>Math.max\<close> of two arguments.\<close>

fun js_sqrt :: "jsnum \<Rightarrow> jsnum" where
  "js_sqrt (Fin a) = (if a < 0 then NaN else Fin (sqrt a))"
| "js_sqrt PosInf = PosInf"
| "js_sqrt NegInf = NaN"
| "js_sqrt NaN = NaN"

fun js_pow2 :: "jsnum \<Rightarrow> jsnum" where
  "js_pow2 (Fin a) = Fin (a\<^sup>2)"
| "js_pow2 PosInf = PosInf"
| "js_pow2 NegInf = PosInf"
| "js_pow2 NaN = NaN"

fun js_round :: "jsnum \<Rightarrow> jsnum" where
  "js_round (Fin a) = Fin (of_int \<lfloor>a + 1 / 2\<rfloor>)"
| "js_round x = x"

text \<open>The comparisons \<open>x > y\<close> and \<open>x <= y\<close>: both are false when an operand is NaN.\<close>

fun js_gt :: "jsnum \<Rightarrow> jsnum \<Rightarrow> bool" where
  "js_gt NaN y = False"
| "js_gt x NaN = False"
| "js_gt (Fin a) (Fin b) = (b < a)"
| "js_gt PosInf PosInf = False"
| "js_gt PosInf y = True"
| "js_gt x PosInf = False"
| "js_gt NegInf y = False"
| "js_gt x NegInf = True"

fun js_le :: "jsnum \<Rightarrow> jsnum \<Rightarrow> bool" where
  "js_le NaN y = False"
| "js_le x NaN = False"
| "js_le x y = (\<not> js_gt x y)"

fun js_max :: "jsnum \<Rightarrow> jsnum \<Rightarrow> jsnum" where
  "js_max NaN y = NaN"
| "js_max x NaN = NaN"
| "js_max x y = (if js_gt y x then y else x)"

section \<open>The score transform and the budget update\<close>

definition GROWTH_FACTOR :: jsnum where
  "GROWTH_FACTOR = Fin 10"

definition DIMINISHING_FACTOR :: jsnum where
  "DIMINISHING_FACTOR = Fin 2"

text \<open>The first half of \<open>computeAndSaveScore\<close>: the score of a recruiter from the volume
  of submissions (a sum of counts) and the points. There is no check of the volume.\<close>

definition computeScore :: "nat \<Rightarrow> jsnum \<Rightarrow> jsnum" where
  "computeScore totalSubmissions points =
     js_round
       (if js_gt points (Fin 0)
        then js_div (js_mul GROWTH_FACTOR points) (js_sqrt (Fin (real totalSubmissions)))
        else js_div (js_mul (js_neg DIMINISHING_FACTOR) (js_pow2 points))
               (Fin (real totalSubmissions)))"

text \<open>The value assigned to \<open>user.recruiter.maxSlots\<close>.\<close>

definition newMaxSlots :: "jsnum \<Rightarrow> jsnum \<Rightarrow> jsnum" where
  "newMaxSlots maxSlots score = js_max (Fin 1) (js_add maxSlots score)"


section \<open>The budget store\<close>

text \<open>
  A recruiter id is a string, or \<open>undefined\<close> (\<open>None\<close>) where the program has none. The
  preference store is a collaborator of the program: it is a map from the id to the
  \<open>maxSlots\<close> of the recruiter's document, and \<open>save\<close> is a parameter that tells, for an id
  and the value to write, what \<open>user.save()\<close> resolves with (an object, seen through its
  count properties), or that it rejects (\<open>None\<close>).
\<close>

type_synonym recruiter_id = "string option"

type_synonym jsobj = "string \<rightharpoonup> nat"

type_synonym preferences = "recruiter_id \<rightharpoonup> jsnum"

type_synonym save_fn = "recruiter_id \<Rightarrow> jsnum \<Rightarrow> jsobj option"

text \<open>\<open>computeAndSaveScore\<close> resolves with the saved document, or with \<open>undefined\<close>
  (\<open>None\<close>) when the recruiter is not found or the write is rejected: both are logged
  (the log is not modelled) and caught, so the function never rejects. A rejected write
  leaves the store as it was.\<close>

definition computeAndSaveScore ::
  "save_fn \<Rightarrow> preferences \<Rightarrow> recruiter_id \<Rightarrow> nat \<Rightarrow> jsnum \<Rightarrow> jsobj option \<times> preferences" where
  "computeAndSaveScore save db recruiterId totalSubmissions points =
     (let score = computeScore totalSubmissions points in
      case db recruiterId of
        None \<Rightarrow> (None, db)
      | Some maxSlots \<Rightarrow>
          (case save recruiterId (newMaxSlots maxSlots score) of
             None \<Rightarrow> (None, db)
           | Some doc \<Rightarrow> (Some doc, db(recruiterId \<mapsto> newMaxSlots maxSlots score))))"

section \<open>The aggregation pipeline\<close>

text \<open>
  The pipeline is data of the program, run by the store; each stage is given the meaning
  it has in the aggregation language of the store. A submission as the pipeline reads
  it: the job, the recruiter, the two fields of the review (each may be missing) and the
  history. Times are milliseconds.
\<close>

record history_entry =
  status :: string
  at_time :: int

record review =
  pass :: "bool option"
  inevitable :: "bool option"

record submission =
  s_job :: string
  s_recruiter :: string
  s_review :: review
  s_history :: "history_entry list"

text \<open>A document after the last \<open>$project\<close> stage, and a document of the \<open>$group\<close>
  stage: \<open>id_job\<close> and \<open>id_recruiter\<close> are \<open>_id.job\<close> and \<open>_id.recruiter\<close>, the latter
  absent in the grouping by job alone.\<close>

record projected =
  p_job :: string
  p_recruiter :: string
  p_pass :: nat

record subs_group =
  id_job :: string
  id_recruiter :: recruiter_id
  sub_total :: nat
  sub_pass :: nat

text \<open>The window starts one week before \<open>now\<close>. The program subtracts a calendar week
  in local time; the model takes seven days of 24 hours, which differs by an hour when
  the clock changes inside the window. Nothing below depends on the length.\<close>

definition WINDOW_WEEKS :: int where
  "WINDOW_WEEKS = 1"

definition window_from :: "int \<Rightarrow> int" where
  "window_from now = now - WINDOW_WEEKS * (7 * 24 * 60 * 60 * 1000)"

text \<open>The first \<open>$match\<close>: on the array \<open>history\<close> each condition may be met by a different
  entry; the field \<open>review.inevitable\<close> must not exist.\<close>

definition coarse_match :: "int \<Rightarrow> int \<Rightarrow> submission \<Rightarrow> bool" where
  "coarse_match from to s \<longleftrightarrow>
     list_ex (\<lambda>h. status h = ''ExpertReviewed'') (s_history s) \<and>
     list_ex (\<lambda>h. from \<le> at_time h) (s_history s) \<and>
     list_ex (\<lambda>h. at_time h < to) (s_history s) \<and>
     inevitable (s_review s) = None"

definition historyArr :: "int \<Rightarrow> int \<Rightarrow> submission \<Rightarrow> history_entry list" where
  "historyArr from to s =
     filter (\<lambda>h. status h = ''ExpertReviewed'' \<and> from \<le> at_time h \<and> at_time h < to)
       (s_history s)"

definition project :: "submission \<Rightarrow> projected" where
  "project s =
     \<lparr>p_job = s_job s, p_recruiter = s_recruiter s,
      p_pass = (if pass (s_review s) = Some True then 1 else 0)\<rparr>"

text \<open>\<open>$group\<close> with \<open>total: {$sum: 1}\<close> and \<open>pass: {$sum: "$pass"}\<close>: a document joins the
  group of its key, or opens a new one. The groups come in the order in which their keys
  first occur (the store promises no order), and \<open>$sort\<close> is stable.\<close>

fun add_to_group :: "string \<Rightarrow> recruiter_id \<Rightarrow> nat \<Rightarrow> subs_group list \<Rightarrow> subs_group list" where
  "add_to_group j r p [] = [\<lparr>id_job = j, id_recruiter = r, sub_total = 1, sub_pass = p\<rparr>]"
| "add_to_group j r p (g # gs) =
     (if id_job g = j \<and> id_recruiter g = r
      then g\<lparr>sub_total := sub_total g + 1, sub_pass := sub_pass g + p\<rparr> # gs
      else g # add_to_group j r p gs)"

definition group_stage :: "bool \<Rightarrow> projected list \<Rightarrow> subs_group list" where
  "group_stage global docs =
     foldl (\<lambda>gs d. add_to_group (p_job d) (if global then None else Some (p_recruiter d))
                     (p_pass d) gs) [] docs"

text \<open>The documents after the stages that come before \<open>$group\<close>, and the aggregation,
  by job alone when \<open>global\<close> is true, by job and recruiter and sorted by recruiter
  otherwise. The clock \<open>now\<close> and the collection are parameters.\<close>

definition aggregate_docs :: "int \<Rightarrow> submission list \<Rightarrow> projected list" where
  "aggregate_docs now submissions =
     (let from = window_from now; to = now
      in map project
           (filter (\<lambda>s. historyArr from to s \<noteq> [])
              (filter (coarse_match from to) submissions)))"

definition retrieveRecruitersSubmissions ::
  "bool \<Rightarrow> int \<Rightarrow> submission list \<Rightarrow> subs_group list" where
  "retrieveRecruitersSubmissions global now submissions =
     (if \<not> global
      then sort_key id_recruiter (group_stage False (aggregate_docs now submissions))
      else group_stage True (aggregate_docs now submissions))"

section \<open>The run\<close>

record job_baseline =
  b_total :: nat
  b_pass :: nat
  approvalRatio :: jsnum

definition subsPerJobs_of :: "subs_group list \<Rightarrow> (string \<rightharpoonup> job_baseline)" where
  "subsPerJobs_of aggregateSubsPerJobs =
     foldl (\<lambda>result subs. result(id_job subs \<mapsto>
              \<lparr>b_total = sub_total subs, b_pass = sub_pass subs,
               approvalRatio = js_div (Fin (real (sub_pass subs))) (Fin (real (sub_total subs)))\<rparr>))
       Map.empty aggregateSubsPerJobs"

datatype error = TypeError

text \<open>A value is falsy when it is \<open>undefined\<close> or the empty string; \<open>x || 0\<close> on a count
  that may be missing.\<close>

fun truthy :: "recruiter_id \<Rightarrow> bool" where
  "truthy None = False"
| "truthy (Some s) = (s \<noteq> [])"

fun or0 :: "nat option \<Rightarrow> nat" where
  "or0 None = 0"
| "or0 (Some n) = n"

text \<open>The variables of the loop, the store, and the calls of \<open>computeAndSaveScore\<close> made
  so far (the flushes), each with its three arguments.\<close>

record loop_state =
  lastRecruiter :: recruiter_id
  totalSubmissions :: nat
  points :: jsnum
  results :: jsobj
  prefs :: preferences
  calls :: "(recruiter_id \<times> nat \<times> jsnum) list"

definition delta_of :: "subs_group \<Rightarrow> job_baseline \<Rightarrow> jsnum" where
  "delta_of recJobSubs b =
     js_sub (Fin (real (sub_pass recJobSubs)))
       (js_mul (Fin (real (sub_total recJobSubs))) (approvalRatio b))"

text \<open>The body of \<open>if (lastRecruiter !== recruiter)\<close>. Reading a property of
  \<open>undefined\<close> throws: the state is then the one at the throw.\<close>

definition flush :: "save_fn \<Rightarrow> recruiter_id \<Rightarrow> loop_state \<Rightarrow> error option \<times> loop_state" where
  "flush save recruiter s =
     (let (recruiterScoreUpdates, db) =
            computeAndSaveScore save (prefs s) (lastRecruiter s) (totalSubmissions s) (points s);
          s' = s\<lparr>prefs := db,
                 calls := calls s @ [(lastRecruiter s, totalSubmissions s, points s)]\<rparr>
      in case recruiterScoreUpdates of
           None \<Rightarrow> (Some TypeError, s')
         | Some u \<Rightarrow>
             (None, s'\<lparr>results :=
                         [''inserted'' \<mapsto> or0 (results s ''insertedCount'') + or0 (u ''insertedCount''),
                          ''matchedCount'' \<mapsto> or0 (results s ''matchedCount'') + or0 (u ''matchedCount''),
                          ''modified'' \<mapsto> or0 (results s ''modifiedCount'') + or0 (u ''modifiedCount''),
                          ''deleted'' \<mapsto> or0 (results s ''deletedCount'') + or0 (u ''deletedCount''),
                          ''upserted'' \<mapsto> or0 (results s ''upsertedCount'') + or0 (u ''upsertedCount'')],
                       totalSubmissions := 0, points := Fin 0, lastRecruiter := recruiter\<rparr>))"

text \<open>One pass through the body of the \<open>do ... while\<close>, for what the cursor gave: a
  document, or \<open>null\<close> at the end.\<close>

definition iteration ::
  "save_fn \<Rightarrow> (string \<rightharpoonup> job_baseline) \<Rightarrow> subs_group option \<Rightarrow> loop_state
     \<Rightarrow> error option \<times> loop_state" where
  "iteration save subsPerJobs recJobSubs s =
     (let recruiter = (case recJobSubs of None \<Rightarrow> None | Some r \<Rightarrow> id_recruiter r);
          s1 = (if \<not> truthy (lastRecruiter s) then s\<lparr>lastRecruiter := recruiter\<rparr> else s);
          (e, s2) = (if lastRecruiter s1 \<noteq> recruiter then flush save recruiter s1
                     else (None, s1))
      in case e of
           Some err \<Rightarrow> (Some err, s2)
         | None \<Rightarrow>
             (case recJobSubs of
                None \<Rightarrow> (None, s2)
              | Some r \<Rightarrow>
                  (case subsPerJobs (id_job r) of
                     None \<Rightarrow> (Some TypeError, s2)
                   | Some b \<Rightarrow>
                       (None, s2\<lparr>totalSubmissions := totalSubmissions s2 + sub_total r,
                                 points := js_add (points s2) (delta_of r b)\<rparr>))))"

text \<open>The loop over the cursor: one pass for each document, and a last one for \<open>null\<close>.\<close>

fun loop ::
  "save_fn \<Rightarrow> (string \<rightharpoonup> job_baseline) \<Rightarrow> subs_group list \<Rightarrow> loop_state
     \<Rightarrow> error option \<times> loop_state" where
  "loop save subsPerJobs [] s = iteration save subsPerJobs None s"
| "loop save subsPerJobs (r # rs) s =
     (case iteration save subsPerJobs (Some r) s of
        (Some err, s') \<Rightarrow> (Some err, s')
      | (None, s') \<Rightarrow> loop save subsPerJobs rs s')"

definition initial_state :: "preferences \<Rightarrow> loop_state" where
  "initial_state db =
     \<lparr>lastRecruiter = None, totalSubmissions = 0, points = Fin 0, results = Map.empty,
      prefs = db, calls = []\<rparr>"

text \<open>The fold over a given stream and baseline, and the whole of
  \<open>computeRecruitersScore\<close>: what the promise settles with (the error it rejects with, or
  the object it resolves with), the store afterwards, and the flushes. \<open>run\<close> reads the
  clock into \<open>now\<close> and calls it; the two queries are taken to succeed.\<close>

definition scoring_fold ::
  "save_fn \<Rightarrow> (string \<rightharpoonup> job_baseline) \<Rightarrow> subs_group list \<Rightarrow> preferences
     \<Rightarrow> (error + jsobj) \<times> preferences \<times> (recruiter_id \<times> nat \<times> jsnum) list" where
  "scoring_fold save subsPerJobs cursorRecruiters db =
     (case loop save subsPerJobs cursorRecruiters (initial_state db) of
        (Some err, s) \<Rightarrow> (Inl err, prefs s, calls s)
      | (None, s) \<Rightarrow> (Inr (results s), prefs s, calls s))"

definition computeRecruitersScore ::
  "save_fn \<Rightarrow> int \<Rightarrow> submission list \<Rightarrow> preferences
     \<Rightarrow> (error + jsobj) \<times> preferences \<times> (recruiter_id \<times> nat \<times> jsnum) list" where
  "computeRecruitersScore save now submissions db =
     (let aggregateSubsPerJobs = retrieveRecruitersSubmissions True now submissions;
          subsPerJobs = subsPerJobs_of aggregateSubsPerJobs;
          cursorRecruiters = retrieveRecruitersSubmissions False now submissions
      in scoring_fold save subsPerJobs cursorRecruiters db)"

section \<open>Example data\<close>

text \<open>One job with the submissions of two recruiters, its baseline (10 passes out of
  20), and the stores and the behaviours of \<open>save\<close> used in the examples below.\<close>

definition example_stream :: "subs_group list" where
  "example_stream =
     [\<lparr>id_job = ''j'', id_recruiter = Some ''a'', sub_total = 10, sub_pass = 8\<rparr>,
      \<lparr>id_job = ''j'', id_recruiter = Some ''b'', sub_total = 10, sub_pass = 2\<rparr>]"

definition example_baseline :: "string \<rightharpoonup> job_baseline" where
  "example_baseline =
     subsPerJobs_of [\<lparr>id_job = ''j'', id_recruiter = None, sub_total = 20, sub_pass = 10\<rparr>]"

definition example_prefs :: preferences where
  "example_prefs = [Some ''a'' \<mapsto> Fin 5, Some ''b'' \<mapsto> Fin 5]"

definition prefs_without_a :: preferences where
  "prefs_without_a = [Some ''b'' \<mapsto> Fin 5]"

definition one_slot :: preferences where
  "one_slot = [Some ''a'' \<mapsto> Fin 1]"

definition plain_save :: save_fn where
  "plain_save recruiterId maxSlots = Some Map.empty"

definition counting_save :: save_fn where
  "counting_save recruiterId maxSlots = Some [''matchedCount'' \<mapsto> 1, ''modifiedCount'' \<mapsto> 1]"

definition save_rejecting_a :: save_fn where
  "save_rejecting_a recruiterId maxSlots =
     (if recruiterId = Some ''a'' then None else Some Map.empty)"

definition falsy_stream :: "subs_group list" where
  "falsy_stream = [\<lparr>id_job = ''j'', id_recruiter = Some [], sub_total = 1, sub_pass = 1\<rparr>]"

definition flagged_submission :: submission where
  "flagged_submission =
     \<lparr>s_job = ''j'', s_recruiter = ''a'',
      s_review = \<lparr>pass = Some True, inevitable = Some False\<rparr>,
      s_history = [\<lparr>status = ''ExpertReviewed'', at_time = 1000000000\<rparr>]\<rparr>"

definition unflagged_submission :: submission where
  "unflagged_submission =
     \<lparr>s_job = ''j'', s_recruiter = ''a'',
      s_review = \<lparr>pass = Some True, inevitable = None\<rparr>,
      s_history = [\<lparr>status = ''ExpertReviewed'', at_time = 1000000000\<rparr>]\<rparr>"

definition failed_submission :: submission where
  "failed_submission =
     \<lparr>s_job = ''j'', s_recruiter = ''b'',
      s_review = \<lparr>pass = Some False, inevitable = None\<rparr>,
      s_history = [\<lparr>status = ''ExpertReviewed'', at_time = 1000000000\<rparr>]\<rparr>"

definition falsy_then_a_stream :: "subs_group list" where
  "falsy_then_a_stream =
     [\<lparr>id_job = ''j'', id_recruiter = Some [], sub_total = 1, sub_pass = 1\<rparr>,
      \<lparr>id_job = ''j'', id_recruiter = Some ''a'', sub_total = 1, sub_pass = 0\<rparr>]"

section \<open>What the fold is expected to emit\<close>

text \<open>
  The reference against which the loop is compared: for each distinct recruiter of the
  stream, in order, the sum of the totals of its documents and the sum of their deltas
  (added from 0 in the order of the stream). A delta is only read where the job has a
  baseline; the program throws where it has none.
\<close>

definition stream_delta :: "(string \<rightharpoonup> job_baseline) \<Rightarrow> subs_group \<Rightarrow> jsnum" where
  "stream_delta subsPerJobs r =
     (case subsPerJobs (id_job r) of Some b \<Rightarrow> delta_of r b | None \<Rightarrow> NaN)"

definition agent_total :: "recruiter_id \<Rightarrow> subs_group list \<Rightarrow> nat" where
  "agent_total a stream = sum_list (map sub_total (filter (\<lambda>r. id_recruiter r = a) stream))"

definition agent_points ::
  "(string \<rightharpoonup> job_baseline) \<Rightarrow> recruiter_id \<Rightarrow> subs_group list \<Rightarrow> jsnum" where
  "agent_points subsPerJobs a stream =
     foldl js_add (Fin 0)
       (map (stream_delta subsPerJobs) (filter (\<lambda>r. id_recruiter r = a) stream))"

definition expected_flushes ::
  "(string \<rightharpoonup> job_baseline) \<Rightarrow> subs_group list \<Rightarrow> (recruiter_id \<times> nat \<times> jsnum) list" where
  "expected_flushes subsPerJobs stream =
     map (\<lambda>a. (a, agent_total a stream, agent_points subsPerJobs a stream))
       (remdups (map id_recruiter stream))"

text \<open>The flushes of the loop from a state with a current recruiter \<open>a\<close> and the
  accumulators \<open>T\<close> and \<open>P\<close>, when no flush fails: a flush at each change of recruiter and
  one at the end.\<close>

fun flushes_from ::
  "(string \<rightharpoonup> job_baseline) \<Rightarrow> recruiter_id \<Rightarrow> nat \<Rightarrow> jsnum \<Rightarrow> subs_group list
     \<Rightarrow> (recruiter_id \<times> nat \<times> jsnum) list" where
  "flushes_from subsPerJobs a T P [] = [(a, T, P)]"
| "flushes_from subsPerJobs a T P (r # rs) =
     (if id_recruiter r = a
      then flushes_from subsPerJobs a (T + sub_total r) (js_add P (stream_delta subsPerJobs r)) rs
      else (a, T, P) #
           flushes_from subsPerJobs (id_recruiter r) (sub_total r)
             (js_add (Fin 0) (stream_delta subsPerJobs r)) rs)"

text \<open>The key of a group of the \<open>$group\<close> stage.\<close>

definition group_key :: "subs_group \<Rightarrow> string \<times> recruiter_id" where
  "group_key g = (id_job g, id_recruiter g)"

section \<open>The score transform\<close>

lemma sqrt_16: "sqrt 16 = 4"
  using real_sqrt_abs [of 4] by simp

lemma computeScore_Fin:
  assumes "0 < T"
  shows "computeScore T (Fin p) =
     Fin (of_int (round (if 0 < p then 10 * p / sqrt (real T) else - 2 * p\<^sup>2 / real T)))"
  using assms
  by (simp add: computeScore_def GROWTH_FACTOR_def DIMINISHING_FACTOR_def round_def)

lemma computeScore_PosInf: "0 < T \<Longrightarrow> computeScore T PosInf = PosInf"
  by (simp add: computeScore_def GROWTH_FACTOR_def)

lemma computeScore_NegInf: "0 < T \<Longrightarrow> computeScore T NegInf = NegInf"
  by (simp add: computeScore_def DIMINISHING_FACTOR_def)

text \<open>
  Claim C6. For a positive volume and finite points, the score is the rounding of
  \<open>10 * points / sqrt totalSubmissions\<close> when the points are positive and of
  \<open>- 2 * points\<^sup>2 / totalSubmissions\<close> otherwise; \<open>round\<close> is the nearest integer with a
  tie going up, as \<open>Math.round\<close>. A volume of 16 with 4 points gives the score 10.
\<close>

theorem score_transform:
  "(0 < T \<longrightarrow> computeScore T (Fin p) =
      Fin (of_int (round (if 0 < p then 10 * p / sqrt (real T) else - 2 * p\<^sup>2 / real T))))
   \<and> computeScore 16 (Fin 4) = Fin 10"
  by (simp add: computeScore_Fin sqrt_16)

theorem score_transform_witness:
  "(0::nat) < 4 \<and> computeScore 4 (Fin (- 2)) = Fin (- 2)"
  using score_transform [of 4 "- 2"] by simp

lemma raw_mono:
  fixes a b :: real
  assumes "0 < T" "a \<le> b"
  shows "(if 0 < a then 10 * a / sqrt (real T) else - 2 * a\<^sup>2 / real T)
       \<le> (if 0 < b then 10 * b / sqrt (real T) else - 2 * b\<^sup>2 / real T)"
proof -
  have T: "0 < real T" "0 < sqrt (real T)" using assms(1) by simp_all
  consider "0 < a" | "a \<le> 0" "0 < b" | "b \<le> 0" using assms(2) by linarith
  then show ?thesis
  proof cases
    case 1
    then have "0 < b" using assms(2) by linarith
    moreover have "10 * a / sqrt (real T) \<le> 10 * b / sqrt (real T)"
      using assms(2) T by (simp add: divide_right_mono)
    ultimately show ?thesis using 1 by simp
  next
    case 2
    have "- 2 * a\<^sup>2 / real T \<le> 0" using T by (simp add: divide_nonpos_pos)
    also have "0 \<le> 10 * b / sqrt (real T)" using 2 T by simp
    finally show ?thesis using 2 by simp
  next
    case 3
    then have "a \<le> 0" using assms(2) by linarith
    have "b\<^sup>2 \<le> a\<^sup>2"
      using 3 assms(2) \<open>a \<le> 0\<close> by (simp flip: abs_le_square_iff)
    then have "- 2 * a\<^sup>2 / real T \<le> - 2 * b\<^sup>2 / real T"
      using T by (simp add: divide_right_mono)
    then show ?thesis using 3 \<open>a \<le> 0\<close> by simp
  qed
qed

text \<open>
  Claim C7. For a fixed positive volume the score does not decrease when the points
  grow, across both branches; the points may be infinite (\<open>js_le\<close> is the program's
  \<open>\<le>\<close>, which holds of no NaN).
\<close>

theorem score_monotone:
  assumes "0 < T" and "js_le p1 p2"
  shows "js_le (computeScore T p1) (computeScore T p2)"
proof (cases p1)
  case (Fin a)
  show ?thesis
  proof (cases p2)
    case (Fin b)
    with \<open>p1 = Fin a\<close> assms(2) have "a \<le> b" by simp
    from raw_mono [OF assms(1) this]
    have "round (if 0 < a then 10 * a / sqrt (real T) else - 2 * a\<^sup>2 / real T)
        \<le> round (if 0 < b then 10 * b / sqrt (real T) else - 2 * b\<^sup>2 / real T)"
      by (rule round_mono)
    then show ?thesis
      unfolding \<open>p1 = Fin a\<close> \<open>p2 = Fin b\<close> computeScore_Fin [OF assms(1)]
      by (simp only: js_le.simps js_gt.simps of_int_less_iff not_less)
  next
    case PosInf
    then show ?thesis using Fin assms(1) by (simp add: computeScore_Fin computeScore_PosInf)
  next
    case NegInf
    then show ?thesis using Fin assms(2) by simp
  next
    case NaN
    then show ?thesis using Fin assms(2) by simp
  qed
next
  case PosInf
  then show ?thesis using assms by (cases p2) (simp_all add: computeScore_PosInf)
next
  case NegInf
  then show ?thesis using assms
    by (cases p2) (simp_all add: computeScore_NegInf computeScore_PosInf computeScore_Fin)
next
  case NaN
  then show ?thesis using assms(2) by simp
qed

theorem score_monotone_witness:
  "(0::nat) < 4 \<and> js_le (Fin (- 2)) (Fin 1) \<and> js_le (Fin (- 2)) (Fin 5)
   \<and> computeScore 4 (Fin (- 2)) = Fin (- 2) \<and> computeScore 4 (Fin 1) = Fin 5"
proof -
  have "sqrt 4 = 2" using real_sqrt_abs [of 2] by simp
  then have "computeScore 4 (Fin (- 2)) = Fin (- 2) \<and> computeScore 4 (Fin 1) = Fin 5"
    by (simp add: computeScore_def GROWTH_FACTOR_def DIMINISHING_FACTOR_def)
  then show ?thesis using score_monotone [of 4 "Fin (- 2)" "Fin 1"] by simp
qed

lemma zero_volume_only_score:
  "computeScore 0 (Fin p) = (if 0 < p then PosInf else if p < 0 then NegInf else NaN)"
  by (simp add: computeScore_def GROWTH_FACTOR_def DIMINISHING_FACTOR_def)

lemma newMaxSlots_special:
  "newMaxSlots (Fin m) PosInf = PosInf"
  "newMaxSlots (Fin m) NegInf = Fin 1"
  "newMaxSlots (Fin m) NaN = NaN"
  by (simp_all add: newMaxSlots_def)

text \<open>
  Claim C3, as the program has it. The transform has no check of the volume and raises
  nothing: at volume 0 the division by zero gives, in exact arithmetic, \<open>Infinity\<close> for
  positive points, \<open>-Infinity\<close> for negative points and \<open>NaN\<close> for no points. With that
  score \<open>computeAndSaveScore\<close> goes on to the budget update: for a recruiter with a
  finite budget whose write succeeds it resolves with the saved document and has written
  \<open>Infinity\<close>, 1 and \<open>NaN\<close> respectively.
\<close>

theorem zero_volume_score:
  "computeScore 0 (Fin p) = (if 0 < p then PosInf else if p < 0 then NegInf else NaN)
   \<and> (db a = Some (Fin m)
        \<longrightarrow> save a (if 0 < p then PosInf else if p < 0 then Fin 1 else NaN) = Some doc
        \<longrightarrow> computeAndSaveScore save db a 0 (Fin p)
            = (Some doc, db(a \<mapsto> (if 0 < p then PosInf else if p < 0 then Fin 1 else NaN))))"
  by (simp add: zero_volume_only_score computeAndSaveScore_def newMaxSlots_special)

theorem zero_volume_score_witness:
  "computeScore 0 (Fin (- 3)) = NegInf
   \<and> example_prefs (Some ''a'') = Some (Fin 5)
   \<and> plain_save (Some ''a'') (Fin 1) = Some Map.empty
   \<and> computeAndSaveScore plain_save example_prefs (Some ''a'') 0 (Fin (- 3))
       = (Some Map.empty, example_prefs(Some ''a'' \<mapsto> Fin 1))"
proof -
  have a: "example_prefs (Some ''a'') = Some (Fin 5)" by (simp add: example_prefs_def)
  have b: "plain_save (Some ''a'') (Fin 1) = Some Map.empty" by (simp add: plain_save_def)
  from zero_volume_score [where p = "- 3" and db = example_prefs and a = "Some ''a''"
      and m = 5 and save = plain_save and doc = Map.empty] a b
  show ?thesis by simp
qed

text \<open>At volume 0 with one point the score is \<open>Infinity\<close>, and \<open>computeAndSaveScore\<close>
  goes on to write it: it resolves with the saved document.\<close>

theorem zero_volume_counterexample:
  "computeScore 0 (Fin 1) = PosInf
   \<and> fst (computeAndSaveScore plain_save example_prefs (Some ''a'') 0 (Fin 1)) = Some Map.empty
   \<and> snd (computeAndSaveScore plain_save example_prefs (Some ''a'') 0 (Fin 1)) (Some ''a'')
       = Some PosInf"
  by (simp add: computeScore_def GROWTH_FACTOR_def computeAndSaveScore_def plain_save_def
      example_prefs_def newMaxSlots_def)

section \<open>The budget update\<close>

lemma newMaxSlots_int:
  "newMaxSlots (Fin (of_int m)) (Fin (of_int k)) = Fin (of_int (max 1 (m + k)))"
  by (simp add: newMaxSlots_def max_def)

text \<open>
  Claim C8. When the recruiter has a budget of \<open>m\<close> slots, the score is the integer \<open>k\<close>
  and the write succeeds, the value written is \<open>max 1 (m + k)\<close>, which is at least 1.
\<close>

theorem budget_floor:
  assumes "db a = Some (Fin (of_int m))"
    and "computeScore T p = Fin (of_int k)"
    and "save a (Fin (of_int (max 1 (m + k)))) = Some doc"
  shows "computeAndSaveScore save db a T p = (Some doc, db(a \<mapsto> Fin (of_int (max 1 (m + k)))))
     \<and> 1 \<le> max 1 (m + k)"
  using assms by (simp add: computeAndSaveScore_def newMaxSlots_int)

theorem budget_floor_witness:
  "one_slot (Some ''a'') = Some (Fin 1) \<and> computeScore 1 (Fin (- 5)) = Fin (- 50)
   \<and> snd (computeAndSaveScore plain_save one_slot (Some ''a'') 1 (Fin (- 5))) (Some ''a'')
       = Some (Fin 1)"
proof -
  have a: "one_slot (Some ''a'') = Some (Fin (of_int 1))" by (simp add: one_slot_def)
  have b: "computeScore 1 (Fin (- 5)) = Fin (of_int (- 50))"
    by (simp add: computeScore_def DIMINISHING_FACTOR_def)
  have c: "plain_save (Some ''a'') (Fin (of_int (max 1 (1 + - 50)))) = Some Map.empty"
    by (simp add: plain_save_def)
  show ?thesis
    using budget_floor [where db = one_slot and a = "Some ''a''" and m = 1 and T = 1
        and p = "Fin (- 5)" and k = "- 50" and save = plain_save and doc = Map.empty, OF a b c]
      a b
    by simp
qed

section \<open>The run on small streams\<close>

lemma scoring_fold_empty: "scoring_fold save subsPerJobs [] db = (Inr Map.empty, db, [])"
  by (simp add: scoring_fold_def iteration_def initial_state_def)

lemma flagged_stream: "retrieveRecruitersSubmissions False 1000000001 [flagged_submission] = []"
  by (simp add: retrieveRecruitersSubmissions_def aggregate_docs_def coarse_match_def
      flagged_submission_def group_stage_def)

lemmas run_defs = scoring_fold_def initial_state_def iteration_def flush_def
  computeAndSaveScore_def Let_def delta_of_def js_sub_def subsPerJobs_of_def
  example_stream_def example_baseline_def example_prefs_def

text \<open>
  Claim C10. When the stream of the run is empty, \<open>computeAndSaveScore\<close> is not called,
  the store is as it was, and the run resolves with an object that has no property.
\<close>

theorem empty_stream_run:
  assumes "retrieveRecruitersSubmissions False now submissions = []"
  shows "computeRecruitersScore save now submissions db = (Inr Map.empty, db, [])"
  using assms by (simp add: computeRecruitersScore_def Let_def scoring_fold_empty)

theorem empty_stream_run_witness:
  "retrieveRecruitersSubmissions False 1000000001 [flagged_submission] = []
   \<and> computeRecruitersScore plain_save 1000000001 [flagged_submission] example_prefs
       = (Inr Map.empty, example_prefs, [])"
  using empty_stream_run [OF flagged_stream, of plain_save example_prefs] flagged_stream
  by simp

text \<open>
  Claim C1, on the code. The summary is written under the keys \<open>inserted\<close>, \<open>modified\<close>,
  \<open>deleted\<close> and \<open>upserted\<close> and read back under \<open>insertedCount\<close>, \<open>modifiedCount\<close>,
  \<open>deletedCount\<close> and \<open>upsertedCount\<close>, so only \<open>matchedCount\<close> adds up. With two
  recruiters whose writes each report one matched and one modified document, the run
  returns 2 matched and 1 modified.
\<close>

theorem counters_not_accumulated:
  "(case fst (scoring_fold counting_save example_baseline example_stream example_prefs) of
      Inl err \<Rightarrow> None | Inr summary \<Rightarrow> summary ''modified'') = Some 1
   \<and> (case fst (scoring_fold counting_save example_baseline example_stream example_prefs) of
      Inl err \<Rightarrow> None | Inr summary \<Rightarrow> summary ''matchedCount'') = Some 2
   \<and> snd (snd (scoring_fold counting_save example_baseline example_stream example_prefs))
       = [(Some ''a'', 10, Fin 3), (Some ''b'', 10, Fin (- 3))]"
  by (simp add: run_defs counting_save_def)

text \<open>
  Claim C2, on the code. \<open>computeAndSaveScore\<close> resolves with \<open>undefined\<close> for a
  recruiter without a budget, or whose write is rejected, and the loop then reads
  \<open>insertedCount\<close> of \<open>undefined\<close>: the run rejects with a TypeError after the flush of
  recruiter \<open>a\<close>, and recruiter \<open>b\<close> is never flushed.
\<close>

theorem missing_budget_aborts:
  "scoring_fold plain_save example_baseline example_stream prefs_without_a
     = (Inl TypeError, prefs_without_a, [(Some ''a'', 10, Fin 3)])
   \<and> scoring_fold save_rejecting_a example_baseline example_stream example_prefs
     = (Inl TypeError, example_prefs, [(Some ''a'', 10, Fin 3)])"
  by (simp add: run_defs plain_save_def save_rejecting_a_def prefs_without_a_def)

section \<open>The streaming fold\<close>

text \<open>One pass of the loop, in the three situations of a run in which no flush fails:
  the recruiter of the document is the current one, it is another one, and the cursor is
  at its end.\<close>


lemma js_add_zero_left: "js_add (Fin 0) x = x"
  by (cases x) simp_all

lemma iteration_same:
  assumes "truthy (lastRecruiter s)" and "id_recruiter r = lastRecruiter s"
    and "subsPerJobs (id_job r) = Some b"
  shows "iteration save subsPerJobs (Some r) s =
     (None, s\<lparr>totalSubmissions := totalSubmissions s + sub_total r,
               points := js_add (points s) (stream_delta subsPerJobs r)\<rparr>)"
  using assms by (simp add: iteration_def stream_delta_def)

lemma flush_ok:
  assumes "prefs s (lastRecruiter s) = Some m" and "\<forall>v. save (lastRecruiter s) v \<noteq> None"
  shows "\<exists>res db. flush save recruiter s =
     (None, s\<lparr>prefs := db,
               calls := calls s @ [(lastRecruiter s, totalSubmissions s, points s)],
               results := res, totalSubmissions := 0, points := Fin 0,
               lastRecruiter := recruiter\<rparr>) \<and> dom db = dom (prefs s)"
proof -
  let ?v = "newMaxSlots m (computeScore (totalSubmissions s) (points s))"
  from assms(2) obtain doc where doc: "save (lastRecruiter s) ?v = Some doc" by blast
  let ?db = "(prefs s)(lastRecruiter s \<mapsto> ?v)"
  let ?res = "[''inserted'' \<mapsto> or0 (results s ''insertedCount'') + or0 (doc ''insertedCount''),
     ''matchedCount'' \<mapsto> or0 (results s ''matchedCount'') + or0 (doc ''matchedCount''),
     ''modified'' \<mapsto> or0 (results s ''modifiedCount'') + or0 (doc ''modifiedCount''),
     ''deleted'' \<mapsto> or0 (results s ''deletedCount'') + or0 (doc ''deletedCount''),
     ''upserted'' \<mapsto> or0 (results s ''upsertedCount'') + or0 (doc ''upsertedCount'')]"
  have d: "dom ?db = dom (prefs s)"
    using assms(1) by auto
  have "flush save recruiter s =
     (None, s\<lparr>prefs := ?db,
               calls := calls s @ [(lastRecruiter s, totalSubmissions s, points s)],
               results := ?res, totalSubmissions := 0, points := Fin 0,
               lastRecruiter := recruiter\<rparr>)"
    using assms(1) doc by (simp add: flush_def computeAndSaveScore_def)
  with d show ?thesis by blast
qed

lemma iteration_change:
  assumes "truthy (lastRecruiter s)" and "id_recruiter r \<noteq> lastRecruiter s"
    and "subsPerJobs (id_job r) = Some b"
    and "prefs s (lastRecruiter s) = Some m" and "\<forall>v. save (lastRecruiter s) v \<noteq> None"
  shows "\<exists>res db. iteration save subsPerJobs (Some r) s =
     (None, s\<lparr>prefs := db,
               calls := calls s @ [(lastRecruiter s, totalSubmissions s, points s)],
               results := res, totalSubmissions := sub_total r,
               points := js_add (Fin 0) (stream_delta subsPerJobs r),
               lastRecruiter := id_recruiter r\<rparr>) \<and> dom db = dom (prefs s)"
proof -
  from flush_ok [where s = s and m = m and save = save and recruiter = "id_recruiter r"]
    assms(4,5) obtain res db where
    f: "flush save (id_recruiter r) s =
     (None, s\<lparr>prefs := db,
               calls := calls s @ [(lastRecruiter s, totalSubmissions s, points s)],
               results := res, totalSubmissions := 0, points := Fin 0,
               lastRecruiter := id_recruiter r\<rparr>)" and d: "dom db = dom (prefs s)"
    by blast
  have "iteration save subsPerJobs (Some r) s =
     (None, s\<lparr>prefs := db,
               calls := calls s @ [(lastRecruiter s, totalSubmissions s, points s)],
               results := res, totalSubmissions := sub_total r,
               points := js_add (Fin 0) (stream_delta subsPerJobs r),
               lastRecruiter := id_recruiter r\<rparr>)"
    using assms(1,2,3) f by (simp add: iteration_def stream_delta_def)
  with d show ?thesis by blast
qed

lemma iteration_end:
  assumes "truthy (lastRecruiter s)"
    and "prefs s (lastRecruiter s) = Some m" and "\<forall>v. save (lastRecruiter s) v \<noteq> None"
  shows "\<exists>s'. iteration save subsPerJobs None s = (None, s') \<and>
     calls s' = calls s @ [(lastRecruiter s, totalSubmissions s, points s)]"
proof -
  from flush_ok [where s = s and m = m and save = save and recruiter = None]
    assms(2,3) obtain res db where
    f: "flush save None s =
     (None, s\<lparr>prefs := db,
               calls := calls s @ [(lastRecruiter s, totalSubmissions s, points s)],
               results := res, totalSubmissions := 0, points := Fin 0,
               lastRecruiter := None\<rparr>)"
    by blast
  have "lastRecruiter s \<noteq> None" using assms(1) by (cases "lastRecruiter s") simp_all
  then show ?thesis using assms(1) f by (simp add: iteration_def)
qed

text \<open>The invariant of the loop: with a current recruiter and no failing flush, the
  calls made are those of \<open>flushes_from\<close>.\<close>

lemma loop_flushes:
  assumes "A \<subseteq> dom (prefs s)" and "\<forall>a\<in>A. \<forall>v. save a v \<noteq> None"
    and "lastRecruiter s \<in> A" and "truthy (lastRecruiter s)"
    and "\<forall>r\<in>set rs. id_recruiter r \<in> A \<and> truthy (id_recruiter r) \<and> id_job r \<in> dom subsPerJobs"
  shows "\<exists>s'. loop save subsPerJobs rs s = (None, s') \<and>
     calls s' = calls s @
       flushes_from subsPerJobs (lastRecruiter s) (totalSubmissions s) (points s) rs"
  using assms
proof (induction rs arbitrary: s)
  case Nil
  from Nil(1,3) obtain m where m: "prefs s (lastRecruiter s) = Some m" by blast
  from Nil(2,3) have sv: "\<forall>v. save (lastRecruiter s) v \<noteq> None" by blast
  from iteration_end [where s = s and m = m and save = save and subsPerJobs = subsPerJobs]
    Nil(4) m sv show ?case by simp
next
  case (Cons r rs)
  from Cons.prems(5) obtain b where b: "subsPerJobs (id_job r) = Some b" by auto
  from Cons.prems(5) have rA: "id_recruiter r \<in> A" and rt: "truthy (id_recruiter r)"
    and rest: "\<forall>r\<in>set rs. id_recruiter r \<in> A \<and> truthy (id_recruiter r) \<and> id_job r \<in> dom subsPerJobs"
    by simp_all
  show ?case
  proof (cases "id_recruiter r = lastRecruiter s")
    case True
    let ?s = "s\<lparr>totalSubmissions := totalSubmissions s + sub_total r,
               points := js_add (points s) (stream_delta subsPerJobs r)\<rparr>"
    have it: "iteration save subsPerJobs (Some r) s = (None, ?s)"
      using iteration_same [where s = s and r = r and b = b and subsPerJobs = subsPerJobs]
        Cons.prems(4) True b by simp
    from Cons.IH [of ?s] Cons.prems(1,2,3,4) rest
    obtain s' where "loop save subsPerJobs rs ?s = (None, s')"
      and "calls s' = calls ?s @ flushes_from subsPerJobs (lastRecruiter ?s)
             (totalSubmissions ?s) (points ?s) rs"
      by auto
    then show ?thesis using it True by simp
  next
    case False
    from Cons.prems(1,3) obtain m where m: "prefs s (lastRecruiter s) = Some m" by blast
    from Cons.prems(2,3) have sv: "\<forall>v. save (lastRecruiter s) v \<noteq> None" by blast
    from iteration_change [where s = s and r = r and b = b and m = m and save = save
      and subsPerJobs = subsPerJobs] Cons.prems(4) False b m sv obtain res db where
      it: "iteration save subsPerJobs (Some r) s =
        (None, s\<lparr>prefs := db,
               calls := calls s @ [(lastRecruiter s, totalSubmissions s, points s)],
               results := res, totalSubmissions := sub_total r,
               points := js_add (Fin 0) (stream_delta subsPerJobs r),
               lastRecruiter := id_recruiter r\<rparr>)" and d: "dom db = dom (prefs s)"
      by blast
    let ?s = "s\<lparr>prefs := db,
               calls := calls s @ [(lastRecruiter s, totalSubmissions s, points s)],
               results := res, totalSubmissions := sub_total r,
               points := js_add (Fin 0) (stream_delta subsPerJobs r),
               lastRecruiter := id_recruiter r\<rparr>"
    from Cons.IH [of ?s] Cons.prems(1,2) rA rt rest d
    obtain s' where "loop save subsPerJobs rs ?s = (None, s')"
      and "calls s' = calls ?s @ flushes_from subsPerJobs (lastRecruiter ?s)
             (totalSubmissions ?s) (points ?s) rs"
      by auto
    then show ?thesis using it False by simp
  qed
qed


text \<open>Lists without adjacent duplicates, for sorted lists.\<close>

lemma sorted_remdups_adj_remdups:
  fixes xs :: "'a::linorder list"
  shows "sorted xs \<Longrightarrow> remdups_adj xs = remdups xs"
proof (induction xs rule: remdups_adj.induct)
  case (3 x y xs)
  show ?case
  proof (cases "x = y")
    case True
    with 3 show ?thesis by simp
  next
    case False
    with "3.prems" have "x \<notin> set (y # xs)" by auto
    with False 3 show ?thesis by simp
  qed
qed simp_all

lemma filter_neq_remdups_adj_Cons:
  "filter (\<lambda>b. b \<noteq> a) (remdups_adj (a # xs)) = filter (\<lambda>b. b \<noteq> a) (remdups_adj xs)"
  by (cases xs) simp_all

lemma sorted_remdups_adj_Cons:
  fixes xs :: "'a::linorder list"
  assumes "sorted (a # xs)"
  shows "remdups_adj (a # xs) = a # filter (\<lambda>b. b \<noteq> a) (remdups_adj xs)"
  using assms
proof (induction xs)
  case Nil
  show ?case by simp
next
  case (Cons x xs)
  show ?case
  proof (cases "a = x")
    case True
    from Cons.prems have "sorted (a # xs)" by simp
    from Cons.IH [OF this] True show ?thesis
      by (simp add: filter_neq_remdups_adj_Cons)
  next
    case False
    with Cons.prems have "\<forall>b\<in>set (x # xs). b \<noteq> a" by auto
    then have "\<forall>b\<in>set (remdups_adj (x # xs)). b \<noteq> a" by simp
    then have "filter (\<lambda>b. b \<noteq> a) (remdups_adj (x # xs)) = remdups_adj (x # xs)"
      by (simp only: filter_id_conv)
    with False show ?thesis by simp
  qed
qed

lemma agent_total_Cons:
  "agent_total a (r # rs) = (if id_recruiter r = a then sub_total r else 0) + agent_total a rs"
  by (simp add: agent_total_def)

lemma agent_points_Cons_other:
  "id_recruiter r \<noteq> a \<Longrightarrow> agent_points base a (r # rs) = agent_points base a rs"
  by (simp add: agent_points_def)

lemma agent_total_absent: "a \<notin> id_recruiter ` set rs \<Longrightarrow> agent_total a rs = 0"
  by (induction rs) (auto simp add: agent_total_def)

lemma filter_absent: "a \<notin> id_recruiter ` set rs \<Longrightarrow> filter (\<lambda>r. id_recruiter r = a) rs = []"
  by (induction rs) auto

lemma flushes_from_sorted:
  assumes "sorted (a # map id_recruiter rs)"
  shows "flushes_from base a T P rs =
     (a, T + agent_total a rs,
      foldl js_add P (map (stream_delta base) (filter (\<lambda>r. id_recruiter r = a) rs))) #
     map (\<lambda>b. (b, agent_total b rs, agent_points base b rs))
       (filter (\<lambda>b. b \<noteq> a) (remdups_adj (map id_recruiter rs)))"
  using assms
proof (induction rs arbitrary: a T P)
  case Nil
  show ?case by (simp add: agent_total_def)
next
  case (Cons r rs)
  let ?c = "id_recruiter r"
  let ?f = "\<lambda>ys b. (b, agent_total b ys, agent_points base b ys)"
  have other: "map (?f (r # rs)) (filter (\<lambda>b. b \<noteq> ?c) ys) = map (?f rs) (filter (\<lambda>b. b \<noteq> ?c) ys)"
    for ys
    by (rule map_cong) (auto simp add: agent_total_Cons agent_points_Cons_other)
  show ?case
  proof (cases "?c = a")
    case True
    from Cons.prems have s: "sorted (a # map id_recruiter rs)" by simp
    have o: "map (?f (r # rs)) (filter (\<lambda>b. b \<noteq> a) (remdups_adj (map id_recruiter rs)))
        = map (?f rs) (filter (\<lambda>b. b \<noteq> a) (remdups_adj (map id_recruiter rs)))"
      unfolding True [symmetric] by (rule other)
    have tail: "map (?f (r # rs)) (filter (\<lambda>b. b \<noteq> a) (remdups_adj (map id_recruiter (r # rs))))
        = map (?f rs) (filter (\<lambda>b. b \<noteq> a) (remdups_adj (map id_recruiter rs)))"
      using o True by (simp add: filter_neq_remdups_adj_Cons)
    have "flushes_from base a T P (r # rs) =
        flushes_from base a (T + sub_total r) (js_add P (stream_delta base r)) rs"
      using True by simp
    also note Cons.IH [OF s, of "T + sub_total r" "js_add P (stream_delta base r)"]
    finally show ?thesis
      unfolding tail using True by (simp add: agent_total_Cons)
  next
    case False
    from Cons.prems have s: "sorted (?c # map id_recruiter rs)" by simp
    from False Cons.prems have absent: "a \<notin> id_recruiter ` set (r # rs)" by auto
    then have "\<forall>b\<in>set (remdups_adj (map id_recruiter (r # rs))). b \<noteq> a" by auto
    then have keep: "filter (\<lambda>b. b \<noteq> a) (remdups_adj (map id_recruiter (r # rs)))
        = remdups_adj (map id_recruiter (r # rs))"
      by (simp only: filter_id_conv)
    have split: "remdups_adj (map id_recruiter (r # rs))
        = ?c # filter (\<lambda>b. b \<noteq> ?c) (remdups_adj (map id_recruiter rs))"
      using sorted_remdups_adj_Cons [OF s] by simp
    have "flushes_from base a T P (r # rs) =
        (a, T, P) # flushes_from base ?c (sub_total r) (js_add (Fin 0) (stream_delta base r)) rs"
      using False by simp
    also have "flushes_from base ?c (sub_total r) (js_add (Fin 0) (stream_delta base r)) rs
        = map (?f (r # rs)) (remdups_adj (map id_recruiter (r # rs)))"
      unfolding split Cons.IH [OF s] using other
      by (simp add: agent_total_Cons agent_points_def)
    finally show ?thesis
      unfolding keep using agent_total_absent [OF absent] filter_absent [OF absent]
      by simp
  qed
qed

lemma first_iteration:
  assumes "subsPerJobs (id_job r) = Some b"
  shows "iteration save subsPerJobs (Some r) (initial_state db) =
     (None, (initial_state db)\<lparr>lastRecruiter := id_recruiter r, totalSubmissions := sub_total r,
               points := js_add (Fin 0) (stream_delta subsPerJobs r)\<rparr>)"
  using assms by (simp add: iteration_def stream_delta_def initial_state_def)

text \<open>On a sorted stream the flushes of the loop are the expected ones.\<close>

lemma expected_flushes_sorted:
  assumes "sorted (map id_recruiter (r # rs))"
  shows "flushes_from base (id_recruiter r) (sub_total r) (js_add (Fin 0) (stream_delta base r)) rs
     = expected_flushes base (r # rs)"
proof -
  let ?c = "id_recruiter r"
  let ?f = "\<lambda>ys b. (b, agent_total b ys, agent_points base b ys)"
  from assms have s: "sorted (?c # map id_recruiter rs)" by simp
  have other: "map (?f (r # rs)) (filter (\<lambda>b. b \<noteq> ?c) (remdups_adj (map id_recruiter rs)))
      = map (?f rs) (filter (\<lambda>b. b \<noteq> ?c) (remdups_adj (map id_recruiter rs)))"
    by (rule map_cong) (auto simp add: agent_total_Cons agent_points_Cons_other)
  have "expected_flushes base (r # rs) = map (?f (r # rs)) (remdups_adj (map id_recruiter (r # rs)))"
    unfolding expected_flushes_def sorted_remdups_adj_remdups [OF assms] ..
  also have "remdups_adj (map id_recruiter (r # rs))
      = ?c # filter (\<lambda>b. b \<noteq> ?c) (remdups_adj (map id_recruiter rs))"
    using sorted_remdups_adj_Cons [OF s] by simp
  finally have e: "expected_flushes base (r # rs) =
      ?f (r # rs) ?c # map (?f rs) (filter (\<lambda>b. b \<noteq> ?c) (remdups_adj (map id_recruiter rs)))"
    using other by simp
  show ?thesis
    unfolding e flushes_from_sorted [OF s]
    by (simp add: agent_total_Cons agent_points_def)
qed

text \<open>
  The runs in which the loop does emit one flush for each recruiter. Take a non-empty
  stream sorted by recruiter id in which every id is truthy (a non-empty string) and
  every job has a baseline, and a store in which every recruiter of the stream has a
  budget whose write succeeds. Then the run returns a summary, and the flushes are, in
  order, one for each distinct recruiter, the last one at the end of the stream, each
  with the sum of the totals and the sum of the deltas of that recruiter: as many
  flushes as distinct recruiters.
\<close>

theorem fold_flushes:
  assumes "sorted (map id_recruiter stream)" and "stream \<noteq> []"
    and "\<forall>r\<in>set stream. truthy (id_recruiter r) \<and> id_job r \<in> dom subsPerJobs"
    and "\<forall>r\<in>set stream. id_recruiter r \<in> dom db \<and> (\<forall>v. save (id_recruiter r) v \<noteq> None)"
  shows "(\<exists>summary. fst (scoring_fold save subsPerJobs stream db) = Inr summary)
     \<and> snd (snd (scoring_fold save subsPerJobs stream db)) = expected_flushes subsPerJobs stream
     \<and> length (expected_flushes subsPerJobs stream) = card (id_recruiter ` set stream)"
proof -
  from assms(2) obtain r rs where stream: "stream = r # rs" by (cases stream) auto
  from assms(3) stream obtain b where b: "subsPerJobs (id_job r) = Some b" by auto
  let ?A = "id_recruiter ` set stream"
  let ?s = "(initial_state db)\<lparr>lastRecruiter := id_recruiter r, totalSubmissions := sub_total r,
               points := js_add (Fin 0) (stream_delta subsPerJobs r)\<rparr>"
  have it: "iteration save subsPerJobs (Some r) (initial_state db) = (None, ?s)"
    using first_iteration [where r = r and b = b and subsPerJobs = subsPerJobs] b by simp
  have 1: "?A \<subseteq> dom (prefs ?s)" using assms(4) by (auto simp add: initial_state_def)
  have 2: "\<forall>a\<in>?A. \<forall>v. save a v \<noteq> None" using assms(4) by auto
  have 3: "lastRecruiter ?s \<in> ?A" using stream by simp
  have 4: "truthy (lastRecruiter ?s)" using assms(3) stream by simp
  have 5: "\<forall>x\<in>set rs. id_recruiter x \<in> ?A \<and> truthy (id_recruiter x) \<and> id_job x \<in> dom subsPerJobs"
    using assms(3) stream by auto
  from loop_flushes [where A = ?A and s = ?s and save = save and rs = rs
      and subsPerJobs = subsPerJobs] 1 2 3 4 5
  obtain s' where l: "loop save subsPerJobs rs ?s = (None, s')"
    and c: "calls s' = calls ?s @ flushes_from subsPerJobs (lastRecruiter ?s)
               (totalSubmissions ?s) (points ?s) rs"
    by blast
  have run: "scoring_fold save subsPerJobs stream db = (Inr (results s'), prefs s', calls s')"
    using it l stream by (simp add: scoring_fold_def)
  have "calls s' = expected_flushes subsPerJobs stream"
    using c expected_flushes_sorted [where r = r and rs = rs and base = subsPerJobs]
      assms(1) stream
    by (simp add: initial_state_def)
  moreover have "length (expected_flushes subsPerJobs stream) = card (id_recruiter ` set stream)"
    by (simp add: expected_flushes_def length_remdups_card_conv)
  ultimately show ?thesis using run by simp
qed

theorem fold_flushes_example:
  "sorted (map id_recruiter example_stream) \<and> example_stream \<noteq> []
   \<and> snd (snd (scoring_fold plain_save example_baseline example_stream example_prefs))
       = expected_flushes example_baseline example_stream
   \<and> expected_flushes example_baseline example_stream
       = [(Some ''a'', 10, Fin 3), (Some ''b'', 10, Fin (- 3))]
   \<and> card (id_recruiter ` set example_stream) = 2"
proof -
  have 1: "sorted (map id_recruiter example_stream)" by (simp add: example_stream_def)
  have 2: "example_stream \<noteq> []" by (simp add: example_stream_def)
  have 3: "\<forall>r\<in>set example_stream. truthy (id_recruiter r) \<and> id_job r \<in> dom example_baseline"
    by (simp add: example_stream_def example_baseline_def subsPerJobs_of_def)
  have 4: "\<forall>r\<in>set example_stream. id_recruiter r \<in> dom example_prefs
      \<and> (\<forall>v. plain_save (id_recruiter r) v \<noteq> None)"
    by (simp add: example_stream_def example_prefs_def plain_save_def)
  have 5: "expected_flushes example_baseline example_stream
       = [(Some ''a'', 10, Fin 3), (Some ''b'', 10, Fin (- 3))]"
    by (simp add: expected_flushes_def agent_total_def agent_points_def stream_delta_def
        delta_of_def js_sub_def example_stream_def example_baseline_def subsPerJobs_of_def)
  from fold_flushes [where stream = example_stream and subsPerJobs = example_baseline
      and db = example_prefs and save = plain_save] 1 2 3 4 5
  show ?thesis by simp
qed

text \<open>
  Claim C4, on the code. A sorted stream with N distinct recruiter ids does not always
  give N flushes. With the two recruiters \<open>a\<close> and \<open>b\<close> and no budget for \<open>a\<close>, the
  flush of \<open>a\<close> resolves with \<open>undefined\<close>, the run throws, and the flush of \<open>b\<close> at
  the end of the stream is never made: one flush for two recruiters. And the test
  \<open>!lastRecruiter\<close>, meant for the first pass, also holds of the empty string: a stream
  whose only id is the empty string gives no flush at all, and when a recruiter \<open>a\<close>
  follows the empty id there is one flush, for \<open>a\<close>, that carries the submissions of
  both.
\<close>

theorem flushes_lost:
  "sorted (map id_recruiter example_stream) \<and> card (id_recruiter ` set example_stream) = 2
   \<and> snd (snd (scoring_fold plain_save example_baseline example_stream prefs_without_a))
       = [(Some ''a'', 10, Fin 3)]
   \<and> sorted (map id_recruiter falsy_stream) \<and> card (id_recruiter ` set falsy_stream) = 1
   \<and> scoring_fold plain_save example_baseline falsy_stream example_prefs
       = (Inr Map.empty, example_prefs, [])
   \<and> sorted (map id_recruiter falsy_then_a_stream)
   \<and> card (id_recruiter ` set falsy_then_a_stream) = 2
   \<and> snd (snd (scoring_fold plain_save example_baseline falsy_then_a_stream example_prefs))
       = [(Some ''a'', 2, Fin 0)]"
  by (simp add: run_defs falsy_stream_def falsy_then_a_stream_def plain_save_def
      prefs_without_a_def)

section \<open>The aggregation\<close>

lemmas pipeline_defs = retrieveRecruitersSubmissions_def aggregate_docs_def coarse_match_def
  historyArr_def project_def group_stage_def window_from_def WINDOW_WEEKS_def

text \<open>
  Claim C9. A submission whose review has the field \<open>inevitable\<close>, whatever its value,
  does not pass the first \<open>$match\<close>: with or without it the documents before \<open>$group\<close>
  are the same, and so are the result of the aggregation by job and that of the
  aggregation by job and recruiter.
\<close>

theorem inevitable_excluded:
  assumes "inevitable (s_review s) = Some v"
  shows "aggregate_docs now (xs @ s # ys) = aggregate_docs now (xs @ ys)
     \<and> retrieveRecruitersSubmissions global now (xs @ s # ys)
         = retrieveRecruitersSubmissions global now (xs @ ys)"
  using assms
  by (simp add: retrieveRecruitersSubmissions_def aggregate_docs_def coarse_match_def)

theorem inevitable_excluded_witness:
  "inevitable (s_review flagged_submission) = Some False
   \<and> retrieveRecruitersSubmissions True 1000000001 [flagged_submission, failed_submission]
       = retrieveRecruitersSubmissions True 1000000001 [failed_submission]
   \<and> retrieveRecruitersSubmissions False 1000000001 [flagged_submission, failed_submission]
       = [\<lparr>id_job = ''j'', id_recruiter = Some ''b'', sub_total = 1, sub_pass = 0\<rparr>]
   \<and> retrieveRecruitersSubmissions False 1000000001 [unflagged_submission, failed_submission]
       = [\<lparr>id_job = ''j'', id_recruiter = Some ''a'', sub_total = 1, sub_pass = 1\<rparr>,
          \<lparr>id_job = ''j'', id_recruiter = Some ''b'', sub_total = 1, sub_pass = 0\<rparr>]"
proof -
  have f: "inevitable (s_review flagged_submission) = Some False"
    by (simp add: flagged_submission_def)
  have 1: "retrieveRecruitersSubmissions False 1000000001 [failed_submission]
       = [\<lparr>id_job = ''j'', id_recruiter = Some ''b'', sub_total = 1, sub_pass = 0\<rparr>]"
    by (simp add: pipeline_defs failed_submission_def)
  have 2: "retrieveRecruitersSubmissions False 1000000001 [unflagged_submission, failed_submission]
       = [\<lparr>id_job = ''j'', id_recruiter = Some ''a'', sub_total = 1, sub_pass = 1\<rparr>,
          \<lparr>id_job = ''j'', id_recruiter = Some ''b'', sub_total = 1, sub_pass = 0\<rparr>]"
    by (simp add: pipeline_defs failed_submission_def unflagged_submission_def)
  from inevitable_excluded [where s = flagged_submission and v = False and xs = "[]"
      and ys = "[failed_submission]" and now = 1000000001 and global = True]
    inevitable_excluded [where s = flagged_submission and v = False and xs = "[]"
      and ys = "[failed_submission]" and now = 1000000001 and global = False]
    f 1 2
  show ?thesis by simp
qed

text \<open>What \<open>$group\<close> sums: over the groups of a job, the totals add up to the number of
  documents of the job and the passes to the number of those that passed.\<close>


lemma add_to_group_total:
  "sum_list (map sub_total (filter (\<lambda>g. id_job g = j) (add_to_group j' r p gs)))
     = (if j' = j then 1 else 0) + sum_list (map sub_total (filter (\<lambda>g. id_job g = j) gs))"
  by (induction gs) auto

lemma add_to_group_pass:
  "sum_list (map sub_pass (filter (\<lambda>g. id_job g = j) (add_to_group j' r p gs)))
     = (if j' = j then p else 0) + sum_list (map sub_pass (filter (\<lambda>g. id_job g = j) gs))"
  by (induction gs) auto

lemma group_stage_snoc:
  "group_stage global (docs @ [d]) =
     add_to_group (p_job d) (if global then None else Some (p_recruiter d)) (p_pass d)
       (group_stage global docs)"
  by (simp add: group_stage_def)

lemma group_stage_Nil: "group_stage global [] = []"
  by (simp add: group_stage_def)

lemma group_stage_total:
  "sum_list (map sub_total (filter (\<lambda>g. id_job g = j) (group_stage global docs)))
     = length (filter (\<lambda>d. p_job d = j) docs)"
  by (induction docs rule: rev_induct)
    (simp_all add: group_stage_Nil group_stage_snoc add_to_group_total)

lemma group_stage_pass:
  "sum_list (map sub_pass (filter (\<lambda>g. id_job g = j) (group_stage global docs)))
     = sum_list (map p_pass (filter (\<lambda>d. p_job d = j) docs))"
  by (induction docs rule: rev_induct)
    (simp_all add: group_stage_Nil group_stage_snoc add_to_group_pass)

text \<open>The keys of the groups are distinct, and in the grouping by job alone no group has
  a recruiter.\<close>

lemma add_to_group_keys:
  "group_key ` set (add_to_group j r p gs) = insert (j, r) (group_key ` set gs)"
  by (induction gs) (auto simp add: group_key_def)

lemma add_to_group_distinct:
  "distinct (map group_key gs) \<Longrightarrow> distinct (map group_key (add_to_group j r p gs))"
proof (induction gs)
  case Nil
  show ?case by simp
next
  case (Cons g gs)
  show ?case
  proof (cases "id_job g = j \<and> id_recruiter g = r")
    case True
    with Cons.prems show ?thesis by (simp add: group_key_def)
  next
    case False
    then have "group_key g \<noteq> (j, r)" by (auto simp add: group_key_def)
    moreover from Cons have "distinct (map group_key (add_to_group j r p gs))" by simp
    moreover from Cons.prems have "group_key g \<notin> group_key ` set gs" by simp
    ultimately show ?thesis
      using False add_to_group_keys [of j r p gs] by auto
  qed
qed

lemma group_stage_distinct: "distinct (map group_key (group_stage global docs))"
  by (induction docs rule: rev_induct)
    (simp_all add: group_stage_Nil group_stage_snoc add_to_group_distinct)

lemma group_stage_global_keys:
  "g \<in> set (group_stage True docs) \<Longrightarrow> id_recruiter g = None"
proof (induction docs arbitrary: g rule: rev_induct)
  case Nil
  then show ?case by (simp add: group_stage_Nil)
next
  case (snoc d docs)
  from snoc.prems have "group_key g \<in> group_key ` set (group_stage True (docs @ [d]))"
    by simp
  then have "group_key g = (p_job d, None) \<or> group_key g \<in> group_key ` set (group_stage True docs)"
    by (simp add: group_stage_snoc add_to_group_keys)
  then show ?case
  proof
    assume "group_key g = (p_job d, None)"
    then show ?thesis by (simp add: group_key_def)
  next
    assume "group_key g \<in> group_key ` set (group_stage True docs)"
    then obtain g' where "g' \<in> set (group_stage True docs)" and "group_key g' = group_key g"
      by auto
    with snoc.IH [of g'] show ?thesis by (simp add: group_key_def)
  qed
qed

lemma group_stage_global_distinct: "distinct (map id_job (group_stage True docs))"
proof -
  let ?G = "group_stage True docs"
  from group_stage_distinct [of True docs]
  have d: "distinct ?G" and i: "inj_on group_key (set ?G)"
    by (simp_all add: distinct_map)
  have "inj_on id_job (set ?G)"
  proof (rule inj_onI)
    fix g g' assume g: "g \<in> set ?G" "g' \<in> set ?G" and e: "id_job g = id_job g'"
    from g have "id_recruiter g = None" "id_recruiter g' = None"
      by (simp_all add: group_stage_global_keys)
    with e have "group_key g = group_key g'" by (simp add: group_key_def)
    with i g show "g = g'" by (simp add: inj_on_def)
  qed
  with d show ?thesis by (simp add: distinct_map)
qed


text \<open>Every group has a document. The baseline of a job is made from the one group of
  that job.\<close>

lemma add_to_group_positive:
  "\<forall>g\<in>set gs. 0 < sub_total g \<Longrightarrow> \<forall>g\<in>set (add_to_group j r p gs). 0 < sub_total g"
  by (induction gs) auto

lemma group_stage_positive: "\<forall>g\<in>set (group_stage global docs). 0 < sub_total g"
  by (induction docs rule: rev_induct)
    (simp_all add: group_stage_Nil group_stage_snoc add_to_group_positive)

lemma filter_key_singleton:
  "distinct (map f xs) \<Longrightarrow> x \<in> set xs \<Longrightarrow> filter (\<lambda>y. f y = f x) xs = [x]"
proof (induction xs)
  case Nil
  then show ?case by simp
next
  case (Cons y ys)
  show ?case
  proof (cases "x = y")
    case True
    from Cons.prems(1) have "f y \<notin> f ` set ys" by simp
    then have "\<forall>z\<in>set ys. f z \<noteq> f y" by (metis imageI)
    then have "filter (\<lambda>z. f z = f y) ys = []" by (simp add: filter_empty_conv)
    with True show ?thesis by simp
  next
    case False
    with Cons.prems have "x \<in> set ys" by simp
    from Cons.prems(1) have "f y \<notin> f ` set ys" by simp
    with \<open>x \<in> set ys\<close> have "f y \<noteq> f x" by (metis imageI)
    with Cons \<open>x \<in> set ys\<close> show ?thesis by simp
  qed
qed

lemma subsPerJobs_of_lookup:
  assumes "foldl (\<lambda>result subs. result(id_job subs \<mapsto> mk subs)) m gs j = Some b"
  shows "(\<exists>g\<in>set gs. id_job g = j \<and> b = mk g) \<or> m j = Some b"
  using assms
proof (induction gs arbitrary: m)
  case Nil
  then show ?case by simp
next
  case (Cons g gs)
  from Cons.IH [of "m(id_job g \<mapsto> mk g)"] Cons.prems
  have "(\<exists>g'\<in>set gs. id_job g' = j \<and> b = mk g') \<or> (m(id_job g \<mapsto> mk g)) j = Some b"
    by simp
  then show ?case by (auto split: if_splits)
qed

lemma baseline_group:
  assumes "subsPerJobs_of (group_stage True docs) j = Some b"
  shows "\<exists>g. filter (\<lambda>g. id_job g = j) (group_stage True docs) = [g] \<and> 0 < sub_total g
     \<and> b = \<lparr>b_total = sub_total g, b_pass = sub_pass g,
             approvalRatio = js_div (Fin (real (sub_pass g))) (Fin (real (sub_total g)))\<rparr>"
proof -
  let ?G = "group_stage True docs"
  from subsPerJobs_of_lookup [where m = Map.empty and gs = ?G and j = j and b = b
      and mk = "\<lambda>subs. \<lparr>b_total = sub_total subs, b_pass = sub_pass subs,
               approvalRatio = js_div (Fin (real (sub_pass subs))) (Fin (real (sub_total subs)))\<rparr>"]
    assms
  obtain g where g: "g \<in> set ?G" "id_job g = j"
    and b: "b = \<lparr>b_total = sub_total g, b_pass = sub_pass g,
             approvalRatio = js_div (Fin (real (sub_pass g))) (Fin (real (sub_total g)))\<rparr>"
    by (auto simp add: subsPerJobs_of_def)
  from filter_key_singleton [OF group_stage_global_distinct g(1)] g(2)
  have "filter (\<lambda>g. id_job g = j) ?G = [g]" by simp
  moreover from group_stage_positive g(1) have "0 < sub_total g" by blast
  ultimately show ?thesis using b by blast
qed

lemma baseline_counts:
  assumes "subsPerJobs_of (group_stage True docs) j = Some b"
  shows "b_total b = length (filter (\<lambda>d. p_job d = j) docs)"
    and "b_pass b = sum_list (map p_pass (filter (\<lambda>d. p_job d = j) docs))"
    and "0 < b_total b"
    and "approvalRatio b = Fin (real (b_pass b) / real (b_total b))"
proof -
  from baseline_group [OF assms] obtain g where
    f: "filter (\<lambda>g. id_job g = j) (group_stage True docs) = [g]" and p: "0 < sub_total g"
    and b: "b = \<lparr>b_total = sub_total g, b_pass = sub_pass g,
             approvalRatio = js_div (Fin (real (sub_pass g))) (Fin (real (sub_total g)))\<rparr>"
    by blast
  from group_stage_total [of j True docs] f b
  show "b_total b = length (filter (\<lambda>d. p_job d = j) docs)" by simp
  from group_stage_pass [of j True docs] f b
  show "b_pass b = sum_list (map p_pass (filter (\<lambda>d. p_job d = j) docs))" by simp
  from p b show "0 < b_total b" by simp
  from p b show "approvalRatio b = Fin (real (b_pass b) / real (b_total b))" by simp
qed

text \<open>The stream of a run meets two of the conditions of the fold: it is sorted by
  recruiter, and each of its jobs has a baseline.\<close>

lemma stream_sorted:
  "sorted (map id_recruiter (retrieveRecruitersSubmissions False now submissions))"
  by (simp add: retrieveRecruitersSubmissions_def)

lemma add_to_group_jobs: "id_job ` set (add_to_group j r p gs) = insert j (id_job ` set gs)"
  by (induction gs) auto

lemma group_stage_jobs: "id_job ` set (group_stage global docs) = p_job ` set docs"
  by (induction docs rule: rev_induct)
    (simp_all add: group_stage_Nil group_stage_snoc add_to_group_jobs)

lemma dom_foldl_upd:
  "dom (foldl (\<lambda>result subs. result(id_job subs \<mapsto> mk subs)) m gs) = dom m \<union> id_job ` set gs"
  by (induction gs arbitrary: m) auto

lemma subsPerJobs_of_dom: "dom (subsPerJobs_of gs) = id_job ` set gs"
  by (simp add: subsPerJobs_of_def dom_foldl_upd)

lemma stream_jobs_have_baseline:
  assumes "r \<in> set (retrieveRecruitersSubmissions False now submissions)"
  shows "id_job r \<in> dom (subsPerJobs_of (retrieveRecruitersSubmissions True now submissions))"
proof -
  from assms have "id_job r \<in> id_job ` set (group_stage False (aggregate_docs now submissions))"
    by (simp add: retrieveRecruitersSubmissions_def)
  then show ?thesis
    by (simp add: subsPerJobs_of_dom retrieveRecruitersSubmissions_def group_stage_jobs)
qed

text \<open>Sorting does not change a sum, and a sum of finite numbers is finite.\<close>

lemma sum_list_filter_sort_key:
  fixes f :: "'a \<Rightarrow> nat"
  shows "sum_list (map f (filter P (sort_key k xs))) = sum_list (map f (filter P xs))"
proof -
  have "mset (map f (filter P (sort_key k xs))) = mset (map f (filter P xs))"
    by simp
  then have "sum_mset (mset (map f (filter P (sort_key k xs))))
      = sum_mset (mset (map f (filter P xs)))"
    by (rule arg_cong)
  then show ?thesis by (simp only: sum_mset_sum_list)
qed

lemma foldl_js_add_Fin:
  "foldl js_add (Fin a) (map (\<lambda>r. Fin (f r)) rs) = Fin (a + sum_list (map f rs))"
  by (induction rs arbitrary: a) (simp_all add: add.assoc)

lemma sum_list_deltas:
  "sum_list (map (\<lambda>r. real (sub_pass r) - real (sub_total r) * q) rs)
     = real (sum_list (map sub_pass rs)) - real (sum_list (map sub_total rs)) * q"
  by (induction rs) (simp_all add: algebra_simps)

lemma delta_of_Fin:
  "approvalRatio b = Fin q \<Longrightarrow>
     delta_of r b = Fin (real (sub_pass r) - real (sub_total r) * q)"
  by (simp add: delta_of_def js_sub_def)

text \<open>
  Claim C5. For a job that has a baseline, the baseline counts all the documents of the
  job that come out of the filter, its ratio is \<open>pass / total\<close> with a positive total,
  and the deltas \<open>pass - total * approvalRatio\<close> of the groups of that job in the stream
  of the recruiters add up to exactly 0, in exact arithmetic.
\<close>

theorem conservation:
  assumes "subsPerJobs_of (retrieveRecruitersSubmissions True now submissions) j = Some b"
  shows "b_total b = length (filter (\<lambda>d. p_job d = j) (aggregate_docs now submissions))
     \<and> b_pass b = sum_list (map p_pass (filter (\<lambda>d. p_job d = j) (aggregate_docs now submissions)))
     \<and> 0 < b_total b
     \<and> approvalRatio b = Fin (real (b_pass b) / real (b_total b))
     \<and> foldl js_add (Fin 0)
         (map (\<lambda>r. delta_of r b)
            (filter (\<lambda>r. id_job r = j) (retrieveRecruitersSubmissions False now submissions)))
       = Fin 0"
proof -
  let ?docs = "aggregate_docs now submissions"
  let ?S = "filter (\<lambda>r. id_job r = j) (retrieveRecruitersSubmissions False now submissions)"
  let ?q = "real (b_pass b) / real (b_total b)"
  from assms have base: "subsPerJobs_of (group_stage True ?docs) j = Some b"
    by (simp add: retrieveRecruitersSubmissions_def)
  note c = baseline_counts [OF base]
  have t: "sum_list (map sub_total ?S) = b_total b"
    by (simp add: retrieveRecruitersSubmissions_def sum_list_filter_sort_key
        group_stage_total c(1))
  have p: "sum_list (map sub_pass ?S) = b_pass b"
    by (simp add: retrieveRecruitersSubmissions_def sum_list_filter_sort_key
        group_stage_pass c(2))
  have "map (\<lambda>r. delta_of r b) ?S
      = map (\<lambda>r. Fin (real (sub_pass r) - real (sub_total r) * ?q)) ?S"
    by (rule map_cong) (simp_all add: delta_of_Fin [OF c(4)])
  then have "foldl js_add (Fin 0) (map (\<lambda>r. delta_of r b) ?S)
      = Fin (0 + sum_list (map (\<lambda>r. real (sub_pass r) - real (sub_total r) * ?q) ?S))"
    by (simp only: foldl_js_add_Fin)
  also have "\<dots> = Fin (real (b_pass b) - real (b_total b) * ?q)"
    by (simp only: sum_list_deltas t p add_0_left)
  also have "\<dots> = Fin 0" using c(3) by simp
  finally show ?thesis using c by simp
qed

theorem conservation_witness:
  "subsPerJobs_of
      (retrieveRecruitersSubmissions True 1000000001 [unflagged_submission, failed_submission])
      ''j''
     = Some \<lparr>b_total = 2, b_pass = 1, approvalRatio = Fin (1 / 2)\<rparr>
   \<and> map (\<lambda>r. delta_of r \<lparr>b_total = 2, b_pass = 1, approvalRatio = Fin (1 / 2)\<rparr>)
       (filter (\<lambda>r. id_job r = ''j'')
          (retrieveRecruitersSubmissions False 1000000001
             [unflagged_submission, failed_submission]))
     = [Fin (1 / 2), Fin (- 1 / 2)]
   \<and> foldl js_add (Fin 0)
       (map (\<lambda>r. delta_of r \<lparr>b_total = 2, b_pass = 1, approvalRatio = Fin (1 / 2)\<rparr>)
          (filter (\<lambda>r. id_job r = ''j'')
             (retrieveRecruitersSubmissions False 1000000001
                [unflagged_submission, failed_submission])))
     = Fin 0"
proof -
  have 1: "subsPerJobs_of
      (retrieveRecruitersSubmissions True 1000000001 [unflagged_submission, failed_submission])
      ''j''
     = Some \<lparr>b_total = 2, b_pass = 1, approvalRatio = Fin (1 / 2)\<rparr>"
    by (simp add: pipeline_defs subsPerJobs_of_def failed_submission_def
        unflagged_submission_def)
  have 2: "map (\<lambda>r. delta_of r \<lparr>b_total = 2, b_pass = 1, approvalRatio = Fin (1 / 2)\<rparr>)
       (filter (\<lambda>r. id_job r = ''j'')
          (retrieveRecruitersSubmissions False 1000000001
             [unflagged_submission, failed_submission]))
     = [Fin (1 / 2), Fin (- 1 / 2)]"
    by (simp add: pipeline_defs failed_submission_def unflagged_submission_def delta_of_def
        js_sub_def)
  from conservation [OF 1] 1 2 show ?thesis by (simp only: simp_thms)
qed

end
